theory Spec2Isabelle
  imports Complex_Main "HOL-Library.AList" "HOL-Library.Product_Lexorder"
begin

section \<open>beandatev: conversion between beancount ledgers and DATEV batches\<close>

text \<open>
  A shallow embedding of \<^verbatim>\<open>src/beandatev.py\<close>. Python exceptions are values of
  \<open>error\<close>, returned on the left of a sum. Strings are lists of characters, a character
  standing for a code point below 256. Amounts (\<^verbatim>\<open>Decimal\<close> on the ledger side,
  \<^verbatim>\<open>float\<close> in the batch) are rational numbers: the rounding of
  \<^verbatim>\<open>float(...)\<close> and the printing of \<^verbatim>\<open>str(...)\<close> are taken to be exact.
  The parsers and writers of beancount and pydatev are outside the repository: the
  functions below start from the loaded entries and the loaded batch, and a batch is
  the plain container of its header and rows.
\<close>

subsection \<open>Exceptions\<close>

datatype error =
    ValueError_dates         \<comment> \<open>"Start and stop date need to be within the year."\<close>
  | ValueError_date_range    \<comment> \<open>\<^verbatim>\<open>datetime.date\<close> called with a year outside 1..9999\<close>
  | ValueError_unpack        \<comment> \<open>tuple unpacking with the wrong number of values\<close>
  | ValueError_decimal       \<comment> \<open>\<^verbatim>\<open>D\<close> called on a string that is no number\<close>
  | IndexError
  | KeyError string
  | AttributeError           \<comment> \<open>\<^verbatim>\<open>None.items()\<close>\<close>
  | IOError_input            \<comment> \<open>\<^verbatim>\<open>raise IOError\<close> of \<^verbatim>\<open>datev2beancount\<close>\<close>
  | IOError_account string   \<comment> \<open>"Not a valid account number: "\<close>
  | IOError_wildcards        \<comment> \<open>"Wildcards not allowed."\<close>
  | IOError_file             \<comment> \<open>a file that pydatev cannot load\<close>

fun is_ValueError :: "error \<Rightarrow> bool" where
  "is_ValueError ValueError_dates = True"
| "is_ValueError ValueError_date_range = True"
| "is_ValueError ValueError_unpack = True"
| "is_ValueError ValueError_decimal = True"
| "is_ValueError _ = False"

subsection \<open>Dictionaries\<close>

text \<open>
  A Python \<^verbatim>\<open>dict\<close> keeps its keys in insertion order and an assignment to an
  existing key keeps the key's place: the items are an association list changed by
  \<open>AList.update\<close>. A \<^verbatim>\<open>defaultdict(lambda: name)\<close> is the same with a default.
  A \<^verbatim>\<open>defaultdict\<close> also stores the default under a missing key when it is read;
  the stored value is the one returned for a missing key anyway, so no later read
  differs and the read is modelled without the store.
\<close>

record pydict =
  items :: "(string \<times> string) list"
  default_factory :: "string option"

definition dict :: pydict where
  "dict = \<lparr>items = [], default_factory = None\<rparr>"

definition defaultdict :: "string \<Rightarrow> pydict" where
  "defaultdict name = \<lparr>items = [], default_factory = Some name\<rparr>"

definition setitem :: "pydict \<Rightarrow> string \<Rightarrow> string \<Rightarrow> pydict" where
  "setitem d k v = d\<lparr>items := AList.update k v (items d)\<rparr>"

definition getitem :: "pydict \<Rightarrow> string \<Rightarrow> error + string" where
  "getitem d k =
     (case map_of (items d) k of
        Some v \<Rightarrow> Inr v
      | None \<Rightarrow> (case default_factory d of Some name \<Rightarrow> Inr name | None \<Rightarrow> Inl (KeyError k)))"

definition keys :: "pydict \<Rightarrow> string list" where
  "keys d = map fst (items d)"

subsection \<open>Wildcard expansion\<close>

text \<open>
  \<^verbatim>\<open>str.isdigit\<close> on one character: the ten decimal digits and, among the code
  points below 256, the superscripts two, three and one.
\<close>

definition isdigit :: "char \<Rightarrow> bool" where
  "isdigit c = (c \<in> set ''0123456789'' \<or> c \<in> {CHR 0xB2, CHR 0xB3, CHR 0xB9})"

text \<open>\<^verbatim>\<open>str(digit)\<close> for \<^verbatim>\<open>digit in range(10)\<close>.\<close>

definition str_digit :: "nat \<Rightarrow> char" where
  "str_digit digit = ''0123456789'' ! digit"

text \<open>The body of \<^verbatim>\<open>for c in collection\<close>: what one \<open>c\<close> adds to \<^verbatim>\<open>collection_new\<close>.\<close>

definition expand_position :: "string \<Rightarrow> nat \<Rightarrow> string \<Rightarrow> error + string list" where
  "expand_position account_number i c =
     (if length c \<le> i then Inl IndexError
      else if isdigit (c ! i) then Inr [c]
      else if c ! i = CHR ''*'' then Inr (map (\<lambda>digit. c[i := str_digit digit]) [0..<10])
      else Inl (IOError_account account_number))"

fun expand_collection :: "string \<Rightarrow> nat \<Rightarrow> string list \<Rightarrow> error + string list" where
  "expand_collection account_number i [] = Inr []"
| "expand_collection account_number i (c # cs) =
     (case expand_position account_number i c of
        Inl e \<Rightarrow> Inl e
      | Inr new \<Rightarrow>
          (case expand_collection account_number i cs of
             Inl e \<Rightarrow> Inl e
           | Inr rest \<Rightarrow> Inr (new @ rest)))"

text \<open>The outer loop \<^verbatim>\<open>for i in range(len(account_number))\<close>.\<close>

fun expand_loop :: "string \<Rightarrow> nat list \<Rightarrow> string list \<Rightarrow> error + string list" where
  "expand_loop account_number [] collection = Inr collection"
| "expand_loop account_number (i # is) collection =
     (case expand_collection account_number i collection of
        Inl e \<Rightarrow> Inl e
      | Inr collection_new \<Rightarrow> expand_loop account_number is collection_new)"

definition expand_asterisk_wildcard :: "string \<Rightarrow> error + string list" where
  "expand_asterisk_wildcard account_number =
     expand_loop account_number [0..<length account_number] [account_number]"

subsection \<open>Loading the account dictionary\<close>

text \<open>
  The file is read by \<^verbatim>\<open>csv.reader\<close>: the input is the list of its rows, each a
  list of strings. \<^verbatim>\<open>for a,b in reader\<close> fails on a row that has not two columns,
  and \<^verbatim>\<open>a[0]\<close> fails on an empty first column.
\<close>

fun load_rows :: "bool \<Rightarrow> string list list \<Rightarrow> pydict \<Rightarrow> error + pydict" where
  "load_rows allow_wildcards [] d1 = Inr d1"
| "load_rows allow_wildcards (row # rows) d1 =
     (case row of
        [a, b] \<Rightarrow>
          (if a = [] then Inl IndexError
           else if a ! 0 = CHR ''#'' then load_rows allow_wildcards rows d1
           else if CHR ''*'' \<in> set a then
             (if allow_wildcards then
                (case expand_asterisk_wildcard a of
                   Inl e \<Rightarrow> Inl e
                 | Inr ans \<Rightarrow> load_rows allow_wildcards rows (fold (\<lambda>an d. setitem d an b) ans d1))
              else Inl IOError_wildcards)
           else load_rows allow_wildcards rows (setitem d1 a b))
      | _ \<Rightarrow> Inl ValueError_unpack)"

text \<open>The loop \<^verbatim>\<open>for key in d1.keys(): d2[d1[key]] = key\<close>.\<close>

fun invert_loop :: "pydict \<Rightarrow> string list \<Rightarrow> pydict \<Rightarrow> error + pydict" where
  "invert_loop d1 [] d2 = Inr d2"
| "invert_loop d1 (key # ks) d2 =
     (case getitem d1 key of
        Inl e \<Rightarrow> Inl e
      | Inr v \<Rightarrow> invert_loop d1 ks (setitem d2 v key))"

definition load_account_dictionary ::
  "string list list \<Rightarrow> bool \<Rightarrow> string option \<Rightarrow> error + (pydict \<times> pydict)" where
  "load_account_dictionary rows allow_wildcards default_account_name =
     (case load_rows allow_wildcards rows
             (case default_account_name of None \<Rightarrow> dict | Some name \<Rightarrow> defaultdict name) of
        Inl e \<Rightarrow> Inl e
      | Inr d1 \<Rightarrow>
          (case invert_loop d1 (keys d1) dict of
             Inl e \<Rightarrow> Inl e
           | Inr d2 \<Rightarrow> Inr (d1, d2)))"

subsection \<open>Ledger and batch data\<close>

text \<open>
  A \<^verbatim>\<open>datetime.date\<close> is its year, month and day, compared in this order.
  The constructor refuses what is no day of the calendar.
\<close>

type_synonym date = "int \<times> int \<times> int"

definition year_of :: "date \<Rightarrow> int" where
  "year_of d = fst d"

definition days_in_month :: "int \<Rightarrow> int \<Rightarrow> int" where
  "days_in_month y m =
     (if m = 2 then (if y mod 4 = 0 \<and> (y mod 100 \<noteq> 0 \<or> y mod 400 = 0) then 29 else 28)
      else if m \<in> {4, 6, 9, 11} then 30 else 31)"

definition datetime_date :: "int \<Rightarrow> int \<Rightarrow> int \<Rightarrow> error + date" where
  "datetime_date y m d =
     (if 1 \<le> y \<and> y \<le> 9999 \<and> 1 \<le> m \<and> m \<le> 12 \<and> 1 \<le> d \<and> d \<le> days_in_month y m
      then Inr (y, m, d) else Inl ValueError_date_range)"

text \<open>
  A posting with its \<^verbatim>\<open>units\<close> (number and currency) and a transaction, as
  \<^verbatim>\<open>beancount.core.data\<close> has them; \<open>meta\<close> holds the key-value list given to
  \<^verbatim>\<open>new_metadata\<close>. The other directives of a ledger carry nothing the converters read.
\<close>

record posting =
  account :: string
  number :: rat
  currency :: string

record transaction =
  meta :: "(string \<times> string) list"
  date :: date
  flag :: string
  payee :: string
  narration :: string
  postings :: "posting list"

datatype directive = Transaction transaction | Open string | Other_directive

text \<open>
  A row of the batch with the columns the converters read and write:
  \<^verbatim>\<open>Umsatz (ohne Soll/Haben-Kz)\<close>, \<^verbatim>\<open>Soll/Haben-Kennzeichen\<close>, \<^verbatim>\<open>Kontonummer\<close>,
  \<^verbatim>\<open>Gegenkonto (ohne BU-Schluessel)\<close>, \<^verbatim>\<open>Belegdatum\<close>, \<^verbatim>\<open>Buchungstext\<close> and
  \<^verbatim>\<open>WKZ Umsatz\<close>; \<open>felder\<close> holds the remaining columns, which a metadata mapping
  may name. A column that is \<^verbatim>\<open>None\<close> is \<open>None\<close>.
\<close>

record buchung =
  umsatz :: rat
  soll_haben :: string
  konto :: string
  gegenkonto :: string
  belegdatum :: date
  buchungstext :: string
  wkz_umsatz :: "string option"
  felder :: "string \<Rightarrow> string option"

record buchungsstapel =
  berater :: int
  mandant :: int
  wirtschaftsjahr_beginn :: date
  sachkontennummernlaenge :: int
  datum_von :: date
  datum_bis :: date
  waehrungskennzeichen :: string
  data :: "buchung list"

definition Buchungsstapel ::
  "int \<Rightarrow> int \<Rightarrow> date \<Rightarrow> int \<Rightarrow> date \<Rightarrow> date \<Rightarrow> string \<Rightarrow> buchungsstapel" where
  "Buchungsstapel b m wj l von bis wkz =
     \<lparr>berater = b, mandant = m, wirtschaftsjahr_beginn = wj, sachkontennummernlaenge = l,
      datum_von = von, datum_bis = bis, waehrungskennzeichen = wkz, data = []\<rparr>"

definition add_buchung :: "rat \<Rightarrow> string \<Rightarrow> string \<Rightarrow> string \<Rightarrow> date \<Rightarrow> buchung" where
  "add_buchung u sh k gk bd =
     \<lparr>umsatz = u, soll_haben = sh, konto = k, gegenkonto = gk, belegdatum = bd,
      buchungstext = [], wkz_umsatz = None, felder = (\<lambda>_. None)\<rparr>"

subsection \<open>Account converters\<close>

text \<open>
  \<^verbatim>\<open>account_converter\<close> is a dictionary, read by \<^verbatim>\<open>[...]\<close>, or a callable, which
  may raise what it likes.
\<close>

datatype converter = Dict pydict | Callable "string \<Rightarrow> error + string"

fun convert :: "converter \<Rightarrow> string \<Rightarrow> error + string" where
  "convert (Dict d) key = getitem d key"
| "convert (Callable f) key = f key"

subsection \<open>Ledger to batch\<close>

definition start_date :: "int \<Rightarrow> date option \<Rightarrow> error + date" where
  "start_date year date_start =
     (case date_start of
        None \<Rightarrow> datetime_date year 1 1
      | Some d \<Rightarrow> if year_of d \<noteq> year then Inl ValueError_dates else Inr d)"

definition stop_date :: "int \<Rightarrow> date option \<Rightarrow> error + date" where
  "stop_date year date_stop =
     (case date_stop of
        None \<Rightarrow> datetime_date year 12 31
      | Some d \<Rightarrow> if year_of d \<noteq> year then Inl ValueError_dates else Inr d)"

text \<open>\<^verbatim>\<open>[t.postings[0].units.currency for t in transactions]\<close>\<close>

fun first_currencies :: "transaction list \<Rightarrow> error + string list" where
  "first_currencies [] = Inr []"
| "first_currencies (t # ts) =
     (case postings t of
        [] \<Rightarrow> Inl IndexError
      | p # _ \<Rightarrow>
          (case first_currencies ts of
             Inl e \<Rightarrow> Inl e
           | Inr cs \<Rightarrow> Inr (currency p # cs)))"

text \<open>
  \<^verbatim>\<open>Counter(xs).most_common()\<close>: the distinct elements in the order of their first
  occurrence, each with its count, sorted by falling count; the sort is stable.
\<close>

definition most_common :: "'a list \<Rightarrow> ('a \<times> nat) list" where
  "most_common xs =
     sort_key (\<lambda>kc. - int (snd kc)) (map (\<lambda>k. (k, count_list xs k)) (rev (remdups (rev xs))))"

definition default_currency_of :: "transaction list \<Rightarrow> error + string" where
  "default_currency_of transactions =
     (case first_currencies transactions of
        Inl e \<Rightarrow> Inl e
      | Inr currencies \<Rightarrow>
          (case most_common currencies of
             [] \<Rightarrow> Inl IndexError
           | kc # _ \<Rightarrow> Inr (fst kc)))"

definition warning_text :: string where
  "warning_text = ''Warning: Skip transaction. Dealing with transactions which have more the two postings is not yet implemented.''"

text \<open>Lines 72 to 90: the row made from one transaction that was not skipped.\<close>

definition buchung_of :: "converter \<Rightarrow> string \<Rightarrow> transaction \<Rightarrow> error + buchung" where
  "buchung_of conv default_currency t =
     (case postings t of
        [p1, p2] \<Rightarrow>
          (let (p1, p2) = (if number p1 < 0 then (p2, p1) else (p1, p2)) in
           case convert conv (account p1) of
             Inl e \<Rightarrow> Inl e
           | Inr k \<Rightarrow>
               (case convert conv (account p2) of
                  Inl e \<Rightarrow> Inl e
                | Inr gk \<Rightarrow>
                    (let buchung = (add_buchung (number p1) ''S'' k gk (date t))
                                     \<lparr>buchungstext := take 60 (narration t)\<rparr>
                     in Inr (if currency p1 \<noteq> default_currency
                             then buchung\<lparr>wkz_umsatz := Some (currency p1)\<rparr>
                             else buchung))))
      | _ \<Rightarrow> Inl ValueError_unpack)"

text \<open>
  The loop over the transactions; the state is the rows added so far and the lines
  printed so far.
\<close>

fun add_transactions ::
  "converter \<Rightarrow> string \<Rightarrow> transaction list \<Rightarrow> buchung list \<times> string list
   \<Rightarrow> error + buchung list \<times> string list" where
  "add_transactions conv default_currency [] st = Inr st"
| "add_transactions conv default_currency (t # ts) (rows, out) =
     (if length (postings t) > 2
      then add_transactions conv default_currency ts (rows, out @ [warning_text])
      else (case buchung_of conv default_currency t of
              Inl e \<Rightarrow> Inl e
            | Inr buchung \<Rightarrow> add_transactions conv default_currency ts (rows @ [buchung], out)))"

text \<open>\<^verbatim>\<open>[e for e in entries if isinstance(e, data.Transaction)]\<close>\<close>

definition transactions_of :: "directive list \<Rightarrow> transaction list" where
  "transactions_of entries =
     concat (map (\<lambda>e. case e of Transaction t \<Rightarrow> [t] | _ \<Rightarrow> []) entries)"

text \<open>
  The result is the batch and the lines printed. The batch is also saved to
  \<^verbatim>\<open>filename_datev\<close>, by pydatev.
\<close>

definition beancount2datev ::
  "directive list \<Rightarrow> converter \<Rightarrow> int \<Rightarrow> date option \<Rightarrow> date option
   \<Rightarrow> error + buchungsstapel \<times> string list" where
  "beancount2datev entries account_converter_beancount2datev year date_start date_stop =
     (let transactions = transactions_of entries in
      case start_date year date_start of
        Inl e \<Rightarrow> Inl e
      | Inr date_start \<Rightarrow>
     (case stop_date year date_stop of
        Inl e \<Rightarrow> Inl e
      | Inr date_stop \<Rightarrow>
     (let transactions = filter (\<lambda>t. date_start \<le> date t \<and> date t \<le> date_stop) transactions;
          transactions = sort_key date transactions in
      case default_currency_of transactions of
        Inl e \<Rightarrow> Inl e
      | Inr default_currency \<Rightarrow>
     (case datetime_date year 1 1 of
        Inl e \<Rightarrow> Inl e
      | Inr wj \<Rightarrow>
     (let buchungsstapel = Buchungsstapel 1001 1 wj 4 date_start date_stop default_currency in
      case add_transactions account_converter_beancount2datev default_currency transactions
             (data buchungsstapel, []) of
        Inl e \<Rightarrow> Inl e
      | Inr (rows, out) \<Rightarrow> Inr (buchungsstapel\<lparr>data := rows\<rparr>, out))))))"

subsection \<open>Batch to ledger\<close>

text \<open>
  \<^verbatim>\<open>datev_file\<close> is a file name, a batch, or something else; \<open>read_datev\<close> stands for
  pydatev loading a file.
\<close>

datatype datev_file = Filename string | Stapel buchungsstapel | Other_object

definition load_datev ::
  "(string \<Rightarrow> error + buchungsstapel) \<Rightarrow> datev_file \<Rightarrow> error + buchungsstapel" where
  "load_datev read_datev f =
     (case f of
        Filename name \<Rightarrow> read_datev name
      | Stapel b \<Rightarrow> Inr b
      | Other_object \<Rightarrow> Inl IOError_input)"

text \<open>
  \<^verbatim>\<open>D(sign + str(x))\<close>: the text of a negative number starts with a minus sign, and
  with the sign \<^verbatim>\<open>'-'\<close> before it the text is no number.
\<close>

definition D_str :: "string \<Rightarrow> rat \<Rightarrow> error + rat" where
  "D_str sign x =
     (if sign = ''-'' then (if x < 0 then Inl ValueError_decimal else Inr (- x)) else Inr x)"

text \<open>The loop \<^verbatim>\<open>for key,value in metadata.items()\<close> filling \<^verbatim>\<open>kvl\<close>.\<close>

definition metadata_kvl :: "buchung \<Rightarrow> (string \<times> string) list \<Rightarrow> (string \<times> string) list" where
  "metadata_kvl entry metadata =
     fold (\<lambda>(key, value) kvl.
             case felder entry key of None \<Rightarrow> kvl | Some x \<Rightarrow> AList.update value x kvl)
          metadata []"

text \<open>Lines 124 to 141: the transaction made from one row.\<close>

definition transaction_of ::
  "buchungsstapel \<Rightarrow> converter \<Rightarrow> string \<Rightarrow> (string \<times> string) list option \<Rightarrow> string
   \<Rightarrow> buchung \<Rightarrow> error + transaction" where
  "transaction_of buchungsstapel conv flag' metadata payee' entry =
     (let sign1 = (if soll_haben entry = ''S'' then [] else ''-'');
          sign2 = (if soll_haben entry = ''S'' then ''-'' else [])
      in case convert conv (konto entry) of
           Inl e \<Rightarrow> Inl e
         | Inr k \<Rightarrow>
        (case convert conv (gegenkonto entry) of
           Inl e \<Rightarrow> Inl e
         | Inr gk \<Rightarrow>
        (let currency' = (case wkz_umsatz entry of
                            Some c \<Rightarrow> c
                          | None \<Rightarrow> waehrungskennzeichen buchungsstapel)
         in case D_str sign1 (umsatz entry) of
              Inl e \<Rightarrow> Inl e
            | Inr n1 \<Rightarrow>
           (case D_str sign2 (umsatz entry) of
              Inl e \<Rightarrow> Inl e
            | Inr n2 \<Rightarrow>
           (let p1 = \<lparr>account = k, number = n1, currency = currency'\<rparr>;
                p2 = \<lparr>account = gk, number = n2, currency = currency'\<rparr>
            in case metadata of
                 None \<Rightarrow> Inl AttributeError
               | Some md \<Rightarrow>
                   Inr \<lparr>meta = metadata_kvl entry md, date = belegdatum entry, flag = flag',
                        payee = payee', narration = buchungstext entry,
                        postings = [p1, p2]\<rparr>)))))"

fun entries_loop ::
  "buchungsstapel \<Rightarrow> converter \<Rightarrow> string \<Rightarrow> (string \<times> string) list option \<Rightarrow> string
   \<Rightarrow> buchung list \<Rightarrow> transaction list \<Rightarrow> error + transaction list" where
  "entries_loop buchungsstapel conv flag' metadata payee' [] beancount_entries =
     Inr beancount_entries"
| "entries_loop buchungsstapel conv flag' metadata payee' (entry # es) beancount_entries =
     (case transaction_of buchungsstapel conv flag' metadata payee' entry of
        Inl e \<Rightarrow> Inl e
      | Inr txn \<Rightarrow>
          entries_loop buchungsstapel conv flag' metadata payee' es (beancount_entries @ [txn]))"

text \<open>
  The result is the list returned; writing it to \<^verbatim>\<open>filename_beancount\<close> and printing
  it are left to beancount's printer.
\<close>

definition datev2beancount ::
  "(string \<Rightarrow> error + buchungsstapel) \<Rightarrow> datev_file \<Rightarrow> converter \<Rightarrow> string
   \<Rightarrow> (string \<times> string) list option \<Rightarrow> string \<Rightarrow> error + transaction list" where
  "datev2beancount read_datev datev_file account_converter_datev2beancount flag' metadata payee' =
     (case load_datev read_datev datev_file of
        Inl e \<Rightarrow> Inl e
      | Inr buchungsstapel \<Rightarrow>
          (case entries_loop buchungsstapel account_converter_datev2beancount flag' metadata payee'
                  (data buchungsstapel) [] of
             Inl e \<Rightarrow> Inl e
           | Inr beancount_entries \<Rightarrow> Inr (sort_key date beancount_entries)))"

subsection \<open>Auxiliary notions for the properties\<close>

text \<open>
  The transactions that \<open>beancount2datev\<close> converts: those of the ledger dated within
  the range, in the order of their dates.
\<close>

definition selected :: "directive list \<Rightarrow> date \<Rightarrow> date \<Rightarrow> transaction list" where
  "selected entries ds de =
     sort_key date (filter (\<lambda>t. ds \<le> date t \<and> date t \<le> de) (transactions_of entries))"



subsection \<open>Example data\<close>

definition example_bank :: posting where
  "example_bank = \<lparr>account = ''Assets:Bank'', number = 100, currency = ''EUR''\<rparr>"

definition example_food :: posting where
  "example_food = \<lparr>account = ''Expenses:Food'', number = - 100, currency = ''EUR''\<rparr>"


definition example_transaction :: transaction where
  "example_transaction =
     \<lparr>meta = [], date = (2021, 3, 5), flag = ''*'', payee = [], narration = ''Lunch'',
      postings = [example_bank, example_food]\<rparr>"





text \<open>What comes back for the first and for the last of them.\<close>

definition example_back :: transaction where
  "example_back =
     \<lparr>meta = [], date = (2021, 3, 5), flag = ''txn'', payee = [], narration = ''Lunch'',
      postings = [example_bank, example_food]\<rparr>"


definition example_numbers :: pydict where
  "example_numbers =
     \<lparr>items = [(''Assets:Bank'', ''1200''), (''Expenses:Food'', ''4650'')],
      default_factory = None\<rparr>"

definition example_names :: pydict where
  "example_names =
     \<lparr>items = [(''1200'', ''Assets:Bank''), (''4650'', ''Expenses:Food'')],
      default_factory = None\<rparr>"

definition example_buchung :: buchung where
  "example_buchung = (add_buchung 100 ''S'' ''1200'' ''4650'' (2021, 3, 5))\<lparr>buchungstext := ''Lunch''\<rparr>"

definition example_stapel :: buchungsstapel where
  "example_stapel =
     (Buchungsstapel 1001 1 (2021, 1, 1) 4 (2021, 1, 1) (2021, 12, 31) ''EUR'')\<lparr>data := [example_buchung]\<rparr>"

text \<open>Every item of \<open>d2\<close> is an item of \<open>d1\<close> turned round.\<close>

definition inverse_of :: "pydict \<Rightarrow> pydict \<Rightarrow> bool" where
  "inverse_of d1 d2 = (\<forall>(n, k) \<in> set (items d2). map_of (items d1) k = Some n)"

text \<open>A batch of two rows that are not in the order of their dates.\<close>

definition example_unsorted :: buchungsstapel where
  "example_unsorted =
     (Buchungsstapel 1001 1 (2021, 1, 1) 4 (2021, 1, 1) (2021, 12, 31) ''EUR'')
       \<lparr>data := [example_buchung,
                 (add_buchung 25 ''H'' ''1200'' ''4650'' (2021, 1, 2))
                   \<lparr>buchungstext := ''Refund'', wkz_umsatz := Some ''USD''\<rparr>]\<rparr>"

definition example_unsorted_back :: "transaction list" where
  "example_unsorted_back =
     [\<lparr>meta = [], date = (2021, 1, 2), flag = ''txn'', payee = [], narration = ''Refund'',
       postings = [\<lparr>account = ''Assets:Bank'', number = - 25, currency = ''USD''\<rparr>,
                   \<lparr>account = ''Expenses:Food'', number = 25, currency = ''USD''\<rparr>]\<rparr>,
      example_back]"

text \<open>
  A string matches a pattern when it has a digit for each \<open>*\<close> and the character of
  the pattern elsewhere; \<open>expanded_to i\<close> describes the strings of the collection when
  the positions below \<open>i\<close> have been expanded.
\<close>

definition matches :: "string \<Rightarrow> string \<Rightarrow> bool" where
  "matches p s =
     list_all2 (\<lambda>c d. if c = CHR ''*'' then d \<in> set ''0123456789'' else d = c) p s"

definition expanded_to :: "nat \<Rightarrow> string \<Rightarrow> string \<Rightarrow> bool" where
  "expanded_to i p s =
     (length s = length p \<and> matches (take i p) (take i s) \<and> drop i s = drop i p)"

text \<open>What \<open>datev2beancount\<close> makes of a row: the transaction of the row.\<close>

definition row_transaction :: "buchungsstapel \<Rightarrow> converter \<Rightarrow> buchung \<Rightarrow> transaction \<Rightarrow> bool" where
  "row_transaction b conv r t =
     (date t = belegdatum r \<and> narration t = buchungstext r \<and>
      (\<exists>p1 p2. postings t = [p1, p2]
         \<and> convert conv (konto r) = Inr (account p1)
         \<and> convert conv (gegenkonto r) = Inr (account p2)
         \<and> number p1 = (if soll_haben r = ''S'' then umsatz r else - umsatz r)
         \<and> number p2 = - number p1
         \<and> currency p1 = (case wkz_umsatz r of Some c \<Rightarrow> c | None \<Rightarrow> waehrungskennzeichen b)
         \<and> currency p2 = currency p1))"

section \<open>Properties of the account dictionary\<close>


lemma set_update_subset: "set (AList.update k v al) \<subseteq> insert (k, v) (set al)"
  by (induct al) auto

lemma setitem_default: "default_factory (setitem d k v) = default_factory d"
  by (simp add: setitem_def)

lemma fold_setitem_default:
  "default_factory (fold (\<lambda>an d. setitem d an b) ans d) = default_factory d"
  by (induction ans arbitrary: d) (simp_all add: setitem_default)

lemma load_rows_default:
  "load_rows aw rows d = Inr d' \<Longrightarrow> default_factory d' = default_factory d"
proof (induction aw rows d rule: load_rows.induct)
  case (1 aw d1)
  then show ?case by simp
next
  case (2 aw row rows d1)
  then show ?case
    by (auto split: list.splits if_splits sum.splits simp: fold_setitem_default setitem_default)
qed

lemma getitem_missing:
  "k \<notin> set (keys d) \<Longrightarrow>
   getitem d k = (case default_factory d of Some name \<Rightarrow> Inr name | None \<Rightarrow> Inl (KeyError k))"
  by (simp add: getitem_def keys_def map_of_eq_None_iff [THEN iffD2])

lemma getitem_present:
  "k \<in> set (keys d) \<Longrightarrow> \<exists>v. getitem d k = Inr v \<and> map_of (items d) k = Some v"
proof -
  assume "k \<in> set (keys d)"
  then have "map_of (items d) k \<noteq> None"
    by (simp add: keys_def map_of_eq_None_iff)
  then show ?thesis by (auto simp: getitem_def)
qed

lemma invert_loop_inverse:
  "invert_loop d1 ks d2 = Inr d2' \<Longrightarrow> set ks \<subseteq> set (keys d1) \<Longrightarrow>
   inverse_of d1 d2 \<Longrightarrow> inverse_of d1 d2'"
proof (induction ks arbitrary: d2)
  case Nil
  then show ?case by simp
next
  case (Cons key ks)
  from Cons.prems(2) obtain v where v: "getitem d1 key = Inr v" "map_of (items d1) key = Some v"
    using getitem_present [of key d1] by auto
  with Cons.prems(1) have run: "invert_loop d1 ks (setitem d2 v key) = Inr d2'"
    by simp
  have "inverse_of d1 (setitem d2 v key)"
    using Cons.prems(3) v(2) set_update_subset [of v key "items d2"]
    by (auto simp: inverse_of_def setitem_def)
  with Cons.IH [OF run] Cons.prems(2) show ?case by simp
qed


text \<open>
  Claim C8. When \<open>load_account_dictionary\<close> is given a default account name, reading
  an account number that is no key of the returned number-to-name table gives the
  default name; without a default the same read raises \<open>KeyError\<close>.
\<close>

theorem account_default_lookup:
  "(load_account_dictionary rows aw (Some name) = Inr (d1, d2) \<longrightarrow>
      nr \<notin> set (keys d1) \<longrightarrow> getitem d1 nr = Inr name)
   \<and> (load_account_dictionary rows' aw' None = Inr (d1', d2') \<longrightarrow>
      nr' \<notin> set (keys d1') \<longrightarrow> getitem d1' nr' = Inl (KeyError nr'))"
  by (auto simp: load_account_dictionary_def getitem_missing dict_def defaultdict_def
       split: sum.splits dest!: load_rows_default)

theorem account_default_lookup_witness:
  "load_account_dictionary [[''#number'', ''name''], [''8400'', ''Income:Sales'']] False (Some ''Equity:Unknown'')
     = Inr (\<lparr>items = [(''8400'', ''Income:Sales'')], default_factory = Some ''Equity:Unknown''\<rparr>,
            \<lparr>items = [(''Income:Sales'', ''8400'')], default_factory = None\<rparr>)
   \<and> ''9999'' \<notin> set (keys \<lparr>items = [(''8400'', ''Income:Sales'')], default_factory = Some ''Equity:Unknown''\<rparr>)
   \<and> getitem \<lparr>items = [(''8400'', ''Income:Sales'')], default_factory = Some ''Equity:Unknown''\<rparr> ''9999''
       = Inr ''Equity:Unknown''
   \<and> load_account_dictionary [[''#number'', ''name''], [''8400'', ''Income:Sales'']] False None
     = Inr (\<lparr>items = [(''8400'', ''Income:Sales'')], default_factory = None\<rparr>,
            \<lparr>items = [(''Income:Sales'', ''8400'')], default_factory = None\<rparr>)
   \<and> ''9999'' \<notin> set (keys \<lparr>items = [(''8400'', ''Income:Sales'')], default_factory = None\<rparr>)
   \<and> getitem \<lparr>items = [(''8400'', ''Income:Sales'')], default_factory = None\<rparr> ''9999''
       = Inl (KeyError ''9999'')"
proof -
  let ?rows = "[[''#number'', ''name''], [''8400'', ''Income:Sales'']]"
  let ?d1 = "\<lparr>items = [(''8400'', ''Income:Sales'')], default_factory = Some ''Equity:Unknown''\<rparr>"
  let ?e1 = "\<lparr>items = [(''8400'', ''Income:Sales'')], default_factory = None\<rparr>"
  let ?d2 = "\<lparr>items = [(''Income:Sales'', ''8400'')], default_factory = None\<rparr>"
  have a: "load_account_dictionary ?rows False (Some ''Equity:Unknown'') = Inr (?d1, ?d2)"
    by (simp add: load_account_dictionary_def defaultdict_def dict_def setitem_def getitem_def keys_def)
  have b: "load_account_dictionary ?rows False None = Inr (?e1, ?d2)"
    by (simp add: load_account_dictionary_def defaultdict_def dict_def setitem_def getitem_def keys_def)
  have c: "''9999'' \<notin> set (keys ?d1)" "''9999'' \<notin> set (keys ?e1)"
    by (simp_all add: keys_def)
  from account_default_lookup [of ?rows False "''Equity:Unknown''" ?d1 ?d2 "''9999''" ?rows False ?e1 ?d2 "''9999''"]
    a b c show ?thesis by blast
qed

text \<open>
  Claim C9. For every dictionary file that \<open>load_account_dictionary\<close> accepts, the
  returned tables \<open>d1\<close> (number to name) and \<open>d2\<close> (name to number) satisfy
  \<open>d1[d2[n]] = n\<close> for every name \<open>n\<close> among the keys of \<open>d2\<close>.
\<close>

theorem dictionary_roundtrip:
  assumes "load_account_dictionary rows aw dflt = Inr (d1, d2)" and "n \<in> set (keys d2)"
  shows "\<exists>k. getitem d2 n = Inr k \<and> getitem d1 k = Inr n"
proof -
  from assms(1) have inv: "invert_loop d1 (keys d1) dict = Inr d2"
    by (auto simp: load_account_dictionary_def split: sum.splits)
  have "inverse_of d1 dict" by (simp add: inverse_of_def dict_def)
  with invert_loop_inverse [OF inv] have io: "inverse_of d1 d2" by simp
  from getitem_present [OF assms(2)] obtain k where k: "getitem d2 n = Inr k" "map_of (items d2) n = Some k"
    by auto
  from k(2) have "(n, k) \<in> set (items d2)" by (rule map_of_SomeD)
  with io have "map_of (items d1) k = Some n" by (auto simp: inverse_of_def)
  then have "getitem d1 k = Inr n" by (simp add: getitem_def)
  with k(1) show ?thesis by blast
qed

theorem dictionary_roundtrip_witness:
  "load_account_dictionary [[''1200'', ''Assets:Bank''], [''1201'', ''Assets:Bank''], [''8400'', ''Income:Sales'']] False None
     = Inr (\<lparr>items = [(''1200'', ''Assets:Bank''), (''1201'', ''Assets:Bank''), (''8400'', ''Income:Sales'')], default_factory = None\<rparr>,
            \<lparr>items = [(''Assets:Bank'', ''1201''), (''Income:Sales'', ''8400'')], default_factory = None\<rparr>)
   \<and> ''Assets:Bank'' \<in> set (keys \<lparr>items = [(''Assets:Bank'', ''1201''), (''Income:Sales'', ''8400'')], default_factory = None\<rparr>)
   \<and> (\<exists>k. getitem \<lparr>items = [(''Assets:Bank'', ''1201''), (''Income:Sales'', ''8400'')], default_factory = None\<rparr> ''Assets:Bank'' = Inr k
          \<and> getitem \<lparr>items = [(''1200'', ''Assets:Bank''), (''1201'', ''Assets:Bank''), (''8400'', ''Income:Sales'')], default_factory = None\<rparr> k = Inr ''Assets:Bank'')"
proof -
  let ?rows = "[[''1200'', ''Assets:Bank''], [''1201'', ''Assets:Bank''], [''8400'', ''Income:Sales'']]"
  let ?d1 = "\<lparr>items = [(''1200'', ''Assets:Bank''), (''1201'', ''Assets:Bank''), (''8400'', ''Income:Sales'')], default_factory = None\<rparr>"
  let ?d2 = "\<lparr>items = [(''Assets:Bank'', ''1201''), (''Income:Sales'', ''8400'')], default_factory = None\<rparr>"
  have a: "load_account_dictionary ?rows False None = Inr (?d1, ?d2)"
    by (simp add: load_account_dictionary_def dict_def setitem_def getitem_def keys_def)
  have b: "''Assets:Bank'' \<in> set (keys ?d2)"
    by (simp add: keys_def)
  from dictionary_roundtrip [OF a b] a b show ?thesis by blast
qed

section \<open>Properties of the conversion from ledger to batch\<close>

lemma data_Buchungsstapel: "data (Buchungsstapel b m wj l von bis wkz) = []"
  by (simp add: Buchungsstapel_def)

lemma beancount2datev_unfold:
  assumes "start_date year date_start = Inr ds" and "stop_date year date_stop = Inr de"
  shows "beancount2datev entries conv year date_start date_stop =
     (case default_currency_of (selected entries ds de) of
        Inl e \<Rightarrow> Inl e
      | Inr dc \<Rightarrow>
          (case datetime_date year 1 1 of
             Inl e \<Rightarrow> Inl e
           | Inr wj \<Rightarrow>
               (case add_transactions conv dc (selected entries ds de) ([], []) of
                  Inl e \<Rightarrow> Inl e
                | Inr (rows, out) \<Rightarrow>
                    Inr ((Buchungsstapel 1001 1 wj 4 ds de dc)\<lparr>data := rows\<rparr>, out))))"
  using assms
  by (simp add: beancount2datev_def selected_def Let_def data_Buchungsstapel cong: sum.case_cong)



lemma buchung_of_two: "buchung_of conv dc t = Inr r \<Longrightarrow> length (postings t) = 2"
  by (auto simp: buchung_of_def split: list.splits)



lemma set_transactions_of: "set (transactions_of entries) = {t. Transaction t \<in> set entries}"
  by (auto simp: transactions_of_def split: directive.splits)

lemma set_selected:
  "set (selected entries ds de) = {t. Transaction t \<in> set entries \<and> ds \<le> date t \<and> date t \<le> de}"
  by (auto simp: selected_def set_transactions_of)







lemma example_row:
  "beancount2datev [Transaction example_transaction] (Dict example_numbers) 2021 None None
     = Inr (example_stapel, [])"
  by (simp add: beancount2datev_def transactions_of_def start_date_def stop_date_def
      datetime_date_def days_in_month_def example_transaction_def example_numbers_def
      example_bank_def example_food_def default_currency_of_def most_common_def buchung_of_def
      add_buchung_def Buchungsstapel_def getitem_def example_stapel_def example_buchung_def)









lemma most_common_Nil: "most_common [] = []"
  by (simp add: most_common_def)

lemma default_currency_of_Nil: "default_currency_of [] = Inl IndexError"
  by (simp add: default_currency_of_def most_common_Nil)

lemma empty_range_IndexError:
  assumes "start_date year date_start = Inr ds" and "stop_date year date_stop = Inr de"
    and "\<forall>t. Transaction t \<in> set entries \<longrightarrow> \<not> (ds \<le> date t \<and> date t \<le> de)"
  shows "beancount2datev entries conv year date_start date_stop = Inl IndexError"
proof -
  have "set (selected entries ds de) = {}"
    using assms(3) by (auto simp: set_selected)
  then have "selected entries ds de = []" by simp
  then show ?thesis
    by (simp add: beancount2datev_unfold [OF assms(1,2)] default_currency_of_Nil)
qed


text \<open>
  Claim C4 says that a stop date before the start date gives an empty batch and no
  error. The code raises \<open>IndexError\<close> instead, whatever the ledger holds: no
  transaction is selected and \<^verbatim>\<open>currencies.most_common()[0][0]\<close> reads an empty list.
\<close>

theorem stop_before_start_raises:
  "beancount2datev entries conv 2021 (Some (2021, 6, 1)) (Some (2021, 5, 1)) = Inl IndexError"
proof (rule empty_range_IndexError)
  show "start_date 2021 (Some (2021, 6, 1)) = Inr (2021, 6, 1)"
    by (simp add: start_date_def year_of_def)
  show "stop_date 2021 (Some (2021, 5, 1)) = Inr (2021, 5, 1)"
    by (simp add: stop_date_def year_of_def)
  show "\<forall>t. Transaction t \<in> set entries \<longrightarrow> \<not> ((2021, 6, 1) \<le> date t \<and> date t \<le> (2021, 5, 1))"
  proof (intro allI impI notI)
    fix t assume "(2021, 6, 1) \<le> date t \<and> date t \<le> (2021, 5, 1)"
    then have "((2021, 6, 1) :: date) \<le> (2021, 5, 1)" by (meson order_trans)
    then show False by simp
  qed
qed



lemma start_date_wrong_year:
  "year_of d \<noteq> year \<Longrightarrow> start_date year (Some d) = Inl ValueError_dates"
  by (simp add: start_date_def)

lemma stop_date_wrong_year:
  "year_of d \<noteq> year \<Longrightarrow> stop_date year (Some d) = Inl ValueError_dates"
  by (simp add: stop_date_def)

lemma start_date_error: "start_date year ds = Inl e \<Longrightarrow> is_ValueError e"
  by (auto simp: start_date_def datetime_date_def split: option.splits if_splits)

lemma start_date_default:
  "1 \<le> year \<Longrightarrow> year \<le> 9999 \<Longrightarrow> start_date year None = start_date year (Some (year, 1, 1))"
  by (simp add: start_date_def datetime_date_def days_in_month_def year_of_def)

lemma stop_date_default:
  "1 \<le> year \<Longrightarrow> year \<le> 9999 \<Longrightarrow> stop_date year None = stop_date year (Some (year, 12, 31))"
  by (simp add: stop_date_def datetime_date_def days_in_month_def year_of_def)

lemma beancount2datev_header:
  assumes "beancount2datev entries conv year ds de = Inr (b, out)"
  shows "start_date year ds = Inr (datum_von b) \<and> stop_date year de = Inr (datum_bis b)"
  using assms
  by (auto simp: beancount2datev_def Let_def Buchungsstapel_def split: sum.splits prod.splits)


text \<open>
  Claim C7. A start date given with a year other than the target year raises the
  \<open>ValueError\<close> of the date check, and so does a stop date (unless the start date has
  raised a \<open>ValueError\<close> before). For a target year of the calendar, an absent start
  date is January 1 and an absent stop date is December 31 of the target year.
\<close>

theorem date_range_validation:
  "(year_of d \<noteq> year \<longrightarrow>
      beancount2datev entries conv year (Some d) date_stop = Inl ValueError_dates)
   \<and> (year_of d \<noteq> year \<longrightarrow>
      (\<exists>e. beancount2datev entries conv year date_start (Some d) = Inl e \<and> is_ValueError e))
   \<and> (1 \<le> year \<and> year \<le> 9999 \<longrightarrow>
      beancount2datev entries conv year None date_stop
        = beancount2datev entries conv year (Some (year, 1, 1)) date_stop
      \<and> beancount2datev entries conv year date_start None
        = beancount2datev entries conv year date_start (Some (year, 12, 31)))
   \<and> (beancount2datev entries conv year None None = Inr (b, out) \<longrightarrow>
      datum_von b = (year, 1, 1) \<and> datum_bis b = (year, 12, 31))"
proof (intro conjI impI)
  assume "year_of d \<noteq> year"
  then show "beancount2datev entries conv year (Some d) date_stop = Inl ValueError_dates"
    by (simp add: beancount2datev_def start_date_wrong_year)
next
  assume wrong: "year_of d \<noteq> year"
  show "\<exists>e. beancount2datev entries conv year date_start (Some d) = Inl e \<and> is_ValueError e"
  proof (cases "start_date year date_start")
    case (Inl e)
    then show ?thesis
      using start_date_error [OF Inl] by (simp add: beancount2datev_def)
  next
    case (Inr ds)
    then show ?thesis
      using wrong by (simp add: beancount2datev_def stop_date_wrong_year)
  qed
next
  assume "1 \<le> year \<and> year \<le> 9999"
  then show "beancount2datev entries conv year None date_stop
        = beancount2datev entries conv year (Some (year, 1, 1)) date_stop"
    by (simp add: beancount2datev_def start_date_default)
next
  assume "1 \<le> year \<and> year \<le> 9999"
  then show "beancount2datev entries conv year date_start None
        = beancount2datev entries conv year date_start (Some (year, 12, 31))"
    by (simp add: beancount2datev_def stop_date_default cong: sum.case_cong)
next
  assume r: "beancount2datev entries conv year None None = Inr (b, out)"
  from beancount2datev_header [OF r] show "datum_von b = (year, 1, 1)"
    by (auto simp: start_date_def datetime_date_def split: if_splits)
next
  assume r: "beancount2datev entries conv year None None = Inr (b, out)"
  from beancount2datev_header [OF r] show "datum_bis b = (year, 12, 31)"
    by (auto simp: stop_date_def datetime_date_def split: if_splits)
qed

theorem date_range_validation_witness:
  "year_of (2020, 12, 31) \<noteq> 2021
   \<and> beancount2datev [Transaction example_transaction] (Dict example_numbers) 2021
        (Some (2020, 12, 31)) None = Inl ValueError_dates
   \<and> (\<exists>e. beancount2datev [Transaction example_transaction] (Dict example_numbers) 2021
        None (Some (2020, 12, 31)) = Inl e \<and> is_ValueError e)
   \<and> (1::int) \<le> 2021 \<and> (2021::int) \<le> 9999
   \<and> beancount2datev [Transaction example_transaction] (Dict example_numbers) 2021 None None
       = beancount2datev [Transaction example_transaction] (Dict example_numbers) 2021
           (Some (2021, 1, 1)) None
   \<and> beancount2datev [Transaction example_transaction] (Dict example_numbers) 2021 None None
       = beancount2datev [Transaction example_transaction] (Dict example_numbers) 2021
           None (Some (2021, 12, 31))
   \<and> beancount2datev [Transaction example_transaction] (Dict example_numbers) 2021 None None
       = Inr (example_stapel, [])
   \<and> datum_von example_stapel = (2021, 1, 1) \<and> datum_bis example_stapel = (2021, 12, 31)"
proof -
  have a: "year_of (2020, 12, 31) \<noteq> 2021"
    by (simp add: year_of_def)
  have y: "(1::int) \<le> 2021 \<and> (2021::int) \<le> 9999" by simp
  note b = example_row
  note T = date_range_validation [where d = "(2020, 12, 31)" and year = 2021
      and entries = "[Transaction example_transaction]" and conv = "Dict example_numbers"
      and date_start = None and date_stop = None and b = example_stapel and out = "[]"]
  from T a have c: "beancount2datev [Transaction example_transaction] (Dict example_numbers) 2021
        (Some (2020, 12, 31)) None = Inl ValueError_dates" by blast
  from T a have d: "\<exists>e. beancount2datev [Transaction example_transaction] (Dict example_numbers)
        2021 None (Some (2020, 12, 31)) = Inl e \<and> is_ValueError e" by blast
  from T y have e: "beancount2datev [Transaction example_transaction] (Dict example_numbers) 2021
        None None = beancount2datev [Transaction example_transaction] (Dict example_numbers) 2021
           (Some (2021, 1, 1)) None" by blast
  from T y have f: "beancount2datev [Transaction example_transaction] (Dict example_numbers) 2021
        None None = beancount2datev [Transaction example_transaction] (Dict example_numbers) 2021
           None (Some (2021, 12, 31))" by blast
  from T b have g: "datum_von example_stapel = (2021, 1, 1) \<and> datum_bis example_stapel = (2021, 12, 31)"
    by blast
  from a c d y e f b g show ?thesis by blast
qed


section \<open>Properties of the conversion from batch to ledger\<close>

lemma transaction_of_None:
  "\<exists>e. transaction_of b conv f None p entry = Inl e"
  by (simp add: transaction_of_def Let_def split: sum.splits)

lemma transaction_of_None_AttributeError:
  "convert conv (konto entry) = Inr k \<Longrightarrow> convert conv (gegenkonto entry) = Inr gk \<Longrightarrow>
   0 \<le> umsatz entry \<Longrightarrow> transaction_of b conv f None p entry = Inl AttributeError"
  by (simp add: transaction_of_def Let_def D_str_def)

lemma entries_loop_None:
  "es \<noteq> [] \<Longrightarrow> entries_loop b conv f None p es acc = Inl e \<longleftrightarrow>
     transaction_of b conv f None p (hd es) = Inl e"
  using transaction_of_None [of b conv f p "hd es"]
  by (cases es) auto


text \<open>
  Claim C10. On a batch with at least one row, \<open>datev2beancount\<close> with the metadata
  left at \<open>None\<close> raises an error and returns no transaction; when the accounts of the
  first row convert and its amount is not negative, the error is the
  \<open>AttributeError\<close> of \<^verbatim>\<open>metadata.items()\<close>.
\<close>

theorem metadata_default_unusable:
  assumes "load_datev read_datev datev_file = Inr b" and "data b \<noteq> []"
  shows "(\<exists>e. datev2beancount read_datev datev_file conv flag' None payee' = Inl e)
       \<and> (\<forall>k gk. convert conv (konto (hd (data b))) = Inr k \<and>
                  convert conv (gegenkonto (hd (data b))) = Inr gk \<and> 0 \<le> umsatz (hd (data b))
            \<longrightarrow> datev2beancount read_datev datev_file conv flag' None payee' = Inl AttributeError)"
proof -
  obtain e where e: "transaction_of b conv flag' None payee' (hd (data b)) = Inl e"
    using transaction_of_None by blast
  then have "entries_loop b conv flag' None payee' (data b) [] = Inl e"
    using entries_loop_None [OF assms(2)] by simp
  with assms(1) have r: "datev2beancount read_datev datev_file conv flag' None payee' = Inl e"
    by (simp add: datev2beancount_def)
  show ?thesis
  proof (intro conjI allI impI)
    show "\<exists>e. datev2beancount read_datev datev_file conv flag' None payee' = Inl e"
      using r by blast
  next
    fix k gk
    assume "convert conv (konto (hd (data b))) = Inr k \<and>
            convert conv (gegenkonto (hd (data b))) = Inr gk \<and> 0 \<le> umsatz (hd (data b))"
    then have "transaction_of b conv flag' None payee' (hd (data b)) = Inl AttributeError"
      using transaction_of_None_AttributeError by blast
    with e r show "datev2beancount read_datev datev_file conv flag' None payee' = Inl AttributeError"
      by simp
  qed
qed


theorem metadata_default_unusable_witness:
  "load_datev (\<lambda>name. Inl IOError_file) (Stapel example_stapel) = Inr example_stapel
   \<and> data example_stapel \<noteq> []
   \<and> datev2beancount (\<lambda>name. Inl IOError_file) (Stapel example_stapel) (Dict example_names)
        ''txn'' None [] = Inl AttributeError"
proof -
  have a: "load_datev (\<lambda>name. Inl IOError_file) (Stapel example_stapel) = Inr example_stapel"
    by (simp add: load_datev_def)
  have b: "data example_stapel \<noteq> []"
    by (simp add: example_stapel_def)
  have c: "convert (Dict example_names) (konto (hd (data example_stapel))) = Inr ''Assets:Bank''
         \<and> convert (Dict example_names) (gegenkonto (hd (data example_stapel))) = Inr ''Expenses:Food''
         \<and> 0 \<le> umsatz (hd (data example_stapel))"
    by (simp add: example_stapel_def example_buchung_def add_buchung_def example_names_def
        getitem_def)
  from metadata_default_unusable [OF a b, of "Dict example_names" "''txn''" "[]"] a b c
  show ?thesis by blast
qed

lemma entries_loop_iff:
  "entries_loop b conv f md p es acc = Inr txns \<longleftrightarrow>
     (\<exists>us. txns = acc @ us \<and> list_all2 (\<lambda>r t. transaction_of b conv f md p r = Inr t) es us)"
proof (induction es arbitrary: acc)
  case Nil
  then show ?case by auto
next
  case (Cons e es)
  show ?case
  proof (cases "transaction_of b conv f md p e")
    case (Inl x)
    then show ?thesis by (auto simp: list_all2_Cons1)
  next
    case (Inr t)
    then show ?thesis
      using Cons.IH [of "acc @ [t]"] by (auto simp: list_all2_Cons1)
  qed
qed

lemma transaction_of_Inr:
  assumes "0 \<le> umsatz r" and "convert conv (konto r) = Inr k"
    and "convert conv (gegenkonto r) = Inr gk"
  shows "\<exists>t. transaction_of b conv f (Some md) p r = Inr t"
  using assms by (simp add: transaction_of_def Let_def D_str_def)

lemma transaction_of_row:
  assumes "transaction_of b conv f md p r = Inr t"
  shows "row_transaction b conv r t \<and> 0 \<le> umsatz r"
  using assms
  by (auto simp: transaction_of_def row_transaction_def Let_def D_str_def
      split: sum.splits option.splits if_splits)

lemma list_all2_total:
  "\<forall>x\<in>set xs. \<exists>y. P x y \<Longrightarrow> \<exists>ys. list_all2 P xs ys"
proof (induction xs)
  case Nil
  then show ?case by simp
next
  case (Cons x xs)
  then obtain y ys where "P x y" "list_all2 P xs ys" by auto
  then have "list_all2 P (x # xs) (y # ys)" by simp
  then show ?case by blast
qed

text \<open>
  Claim C6. For a batch whose rows have an amount that is not negative and accounts
  that convert, \<open>datev2beancount\<close> returns one transaction for each row: the primary
  posting has the amount of the row if the indicator is \<open>S\<close> and its negation otherwise,
  the counter posting has the exact negation of the primary one, and both are in the
  currency override of the row if there is one and in the default currency of the batch
  header otherwise. The list returned is in the order of the dates, whatever the order
  of the rows.
\<close>

theorem batch_row_postings:
  assumes load: "load_datev read_datev datev_file = Inr b"
    and rows: "\<forall>r\<in>set (data b). 0 \<le> umsatz r
                 \<and> (\<exists>k. convert conv (konto r) = Inr k)
                 \<and> (\<exists>gk. convert conv (gegenkonto r) = Inr gk)"
  shows "\<exists>us. datev2beancount read_datev datev_file conv flag' (Some md) payee'
                = Inr (sort_key date us)
     \<and> sorted (map date (sort_key date us))
     \<and> set (sort_key date us) = set us
     \<and> length (sort_key date us) = length (data b)
     \<and> list_all2 (row_transaction b conv) (data b) us"
proof -
  have "\<forall>r\<in>set (data b). \<exists>t. transaction_of b conv flag' (Some md) payee' r = Inr t"
    using rows transaction_of_Inr by blast
  from list_all2_total [OF this] obtain us where
    us: "list_all2 (\<lambda>r t. transaction_of b conv flag' (Some md) payee' r = Inr t) (data b) us"
    by blast
  then have "entries_loop b conv flag' (Some md) payee' (data b) [] = Inr us"
    by (simp add: entries_loop_iff)
  with load have res: "datev2beancount read_datev datev_file conv flag' (Some md) payee'
      = Inr (sort_key date us)"
    by (simp add: datev2beancount_def)
  from us have rel: "list_all2 (row_transaction b conv) (data b) us"
    by (rule list_all2_mono) (simp add: transaction_of_row)
  from us have len: "length us = length (data b)"
    by (simp add: list_all2_lengthD)
  from res rel len show ?thesis
    by (intro exI [of _ us]) simp
qed

lemma example_unsorted_result:
  "datev2beancount (\<lambda>name. Inl IOError_file) (Stapel example_unsorted) (Dict example_names)
     ''txn'' (Some []) [] = Inr example_unsorted_back"
  by (simp add: datev2beancount_def load_datev_def example_unsorted_def example_unsorted_back_def
      example_back_def example_bank_def example_food_def example_buchung_def add_buchung_def
      Buchungsstapel_def transaction_of_def D_str_def example_names_def getitem_def
      metadata_kvl_def Let_def)

theorem batch_row_postings_witness:
  "load_datev (\<lambda>name. Inl IOError_file) (Stapel example_unsorted) = Inr example_unsorted
   \<and> datev2beancount (\<lambda>name. Inl IOError_file) (Stapel example_unsorted) (Dict example_names)
        ''txn'' (Some []) [] = Inr example_unsorted_back
   \<and> (\<exists>us. example_unsorted_back = sort_key date us
         \<and> sorted (map date (sort_key date us))
         \<and> list_all2 (row_transaction example_unsorted (Dict example_names))
              (data example_unsorted) us)"
proof -
  have a: "load_datev (\<lambda>name. Inl IOError_file) (Stapel example_unsorted) = Inr example_unsorted"
    by (simp add: load_datev_def)
  have b: "\<forall>r\<in>set (data example_unsorted). 0 \<le> umsatz r
             \<and> (\<exists>k. convert (Dict example_names) (konto r) = Inr k)
             \<and> (\<exists>gk. convert (Dict example_names) (gegenkonto r) = Inr gk)"
    by (simp add: example_unsorted_def example_buchung_def add_buchung_def example_names_def
        getitem_def)
  from batch_row_postings [OF a b, of "''txn''" "[]" "[]"] example_unsorted_result a
  show ?thesis by auto
qed

section \<open>Ledger to batch and back\<close>










section \<open>Properties of the wildcard expansion\<close>

lemma isdigit_digit: "c \<in> set ''0123456789'' \<Longrightarrow> isdigit c"
  by (simp add: isdigit_def)

lemma isdigit_star: "\<not> isdigit (CHR ''*'')"
  by (simp add: isdigit_def)

lemma str_digit_digit: "d < 10 \<Longrightarrow> str_digit d \<in> set ''0123456789''"
  unfolding str_digit_def by (rule nth_mem) simp

lemma str_digit_inj:
  assumes "x < 10" and "y < 10" and "str_digit x = str_digit y"
  shows "x = y"
proof -
  have d: "distinct ''0123456789''" by simp
  have l: "length ''0123456789'' = 10" by simp
  from assms l have "x < length ''0123456789''" "y < length ''0123456789''"
    by (simp_all only:)
  from nth_eq_iff_index_eq [OF d this] assms(3) show ?thesis
    by (simp only: str_digit_def)
qed


lemma expanded_to_nth:
  assumes "expanded_to i p c" and "i < length p"
  shows "c ! i = p ! i"
proof -
  from assms have "drop i c = p ! i # drop (Suc i) p"
    by (simp add: expanded_to_def Cons_nth_drop_Suc)
  then show ?thesis by (rule nth_via_drop)
qed

lemma expanded_to_drop_Suc:
  assumes "expanded_to i p c"
  shows "drop (Suc i) c = drop (Suc i) p"
proof -
  from assms have "tl (drop i c) = tl (drop i p)"
    by (simp add: expanded_to_def)
  then show ?thesis by (simp add: drop_Suc tl_drop)
qed

lemma matches_snoc:
  assumes "length a = length b"
  shows "matches (a @ [x]) (b @ [y])
     \<longleftrightarrow> matches a b \<and> (if x = CHR ''*'' then y \<in> set ''0123456789'' else y = x)"
  using assms by (simp add: matches_def list_all2_append)

lemma expanded_to_Suc_keep:
  assumes c: "expanded_to i p c" and i: "i < length p" and keep: "p ! i \<noteq> CHR ''*''"
  shows "expanded_to (Suc i) p c"
proof -
  from c have len: "length c = length p" by (simp add: expanded_to_def)
  from c have m: "matches (take i p) (take i c)" by (simp add: expanded_to_def)
  have "matches (take i p @ [p ! i]) (take i c @ [c ! i])"
    using m keep expanded_to_nth [OF c i] len by (simp add: matches_snoc)
  then have "matches (take (Suc i) p) (take (Suc i) c)"
    using i len by (simp add: take_Suc_conv_app_nth)
  with len expanded_to_drop_Suc [OF c] show ?thesis
    by (simp add: expanded_to_def)
qed

lemma expanded_to_Suc_star:
  assumes c: "expanded_to i p c" and i: "i < length p" and star: "p ! i = CHR ''*''"
    and x: "x \<in> set ''0123456789''"
  shows "expanded_to (Suc i) p (c[i := x])"
proof -
  from c have len: "length c = length p" by (simp add: expanded_to_def)
  from c have m: "matches (take i p) (take i c)" by (simp add: expanded_to_def)
  have "matches (take i p @ [p ! i]) (take i c @ [x])"
    using m star x len by (simp add: matches_snoc)
  moreover have "take (Suc i) (c[i := x]) = take i c @ [x]"
    using i len by (simp add: take_Suc_conv_app_nth)
  ultimately have "matches (take (Suc i) p) (take (Suc i) (c[i := x]))"
    using i by (simp add: take_Suc_conv_app_nth)
  moreover have "drop (Suc i) (c[i := x]) = drop (Suc i) p"
    using expanded_to_drop_Suc [OF c] by simp
  ultimately show ?thesis
    using len by (simp add: expanded_to_def)
qed

lemma expand_position_keep:
  "i < length c \<Longrightarrow> isdigit (c ! i) \<Longrightarrow> expand_position p i c = Inr [c]"
  by (simp add: expand_position_def)

lemma expand_position_star:
  "i < length c \<Longrightarrow> c ! i = CHR ''*'' \<Longrightarrow>
   expand_position p i c = Inr (map (\<lambda>digit. c[i := str_digit digit]) [0..<10])"
  by (simp add: expand_position_def isdigit_star)

lemma expand_collection_keep:
  "\<forall>c\<in>set coll. i < length c \<and> isdigit (c ! i) \<Longrightarrow> expand_collection p i coll = Inr coll"
proof (induction coll)
  case Nil
  then show ?case by simp
next
  case (Cons c cs)
  then have "expand_position p i c = Inr [c]" "expand_collection p i cs = Inr cs"
    by (simp_all add: expand_position_keep)
  then show ?case by simp
qed

lemma expand_collection_star:
  "\<forall>c\<in>set coll. i < length c \<and> c ! i = CHR ''*'' \<Longrightarrow>
   expand_collection p i coll
     = Inr (concat (map (\<lambda>c. map (\<lambda>digit. c[i := str_digit digit]) [0..<10]) coll))"
proof (induction coll)
  case Nil
  then show ?case by simp
next
  case (Cons c cs)
  then have "expand_position p i c = Inr (map (\<lambda>digit. c[i := str_digit digit]) [0..<10])"
    "expand_collection p i cs
       = Inr (concat (map (\<lambda>c. map (\<lambda>digit. c[i := str_digit digit]) [0..<10]) cs))"
    by (simp_all add: expand_position_star)
  then show ?case by simp
qed

lemma update_eq_same:
  assumes eq: "c[i := x] = c'[i := y]" and len: "length c = length c'" and i: "c ! i = c' ! i"
  shows "c = c'"
proof (rule nth_equalityI)
  show "length c = length c'" by (rule len)
next
  fix j assume j: "j < length c"
  show "c ! j = c' ! j"
  proof (cases "j = i")
    case True
    with i show ?thesis by simp
  next
    case False
    then have "c ! j = (c[i := x]) ! j" by simp
    also have "\<dots> = (c'[i := y]) ! j" by (simp add: eq)
    also have "\<dots> = c' ! j" using False by simp
    finally show ?thesis .
  qed
qed

lemma distinct_digits:
  assumes "i < length c"
  shows "distinct (map (\<lambda>digit. c[i := str_digit digit]) [0..<10])"
proof -
  have "inj_on (\<lambda>digit. c[i := str_digit digit]) (set [0..<10])"
  proof (rule inj_onI)
    fix x y assume xy: "x \<in> set [0..<10]" "y \<in> set [0..<10]"
      and eq: "c[i := str_digit x] = c[i := str_digit y]"
    from eq have "(c[i := str_digit x]) ! i = (c[i := str_digit y]) ! i" by simp
    with assms have "str_digit x = str_digit y" by simp
    with xy show "x = y" by (auto intro: str_digit_inj)
  qed
  then show ?thesis by (simp add: distinct_map)
qed

lemma distinct_star:
  assumes "distinct coll" and "\<forall>c\<in>set coll. length c = n \<and> c ! i = a" and "i < n"
  shows "distinct (concat (map (\<lambda>c. map (\<lambda>digit. c[i := str_digit digit]) [0..<10]) coll))"
  using assms(1,2)
proof (induction coll)
  case Nil
  then show ?case by simp
next
  case (Cons c cs)
  let ?f = "\<lambda>c. map (\<lambda>digit. c[i := str_digit digit]) [0..<10]"
  from Cons.prems assms(3) have ic: "i < length c" by simp
  have d1: "distinct (?f c)" using ic by (rule distinct_digits)
  have d2: "distinct (concat (map ?f cs))" using Cons by simp
  have "set (?f c) \<inter> set (concat (map ?f cs)) = {}"
  proof (rule ccontr)
    assume "set (?f c) \<inter> set (concat (map ?f cs)) \<noteq> {}"
    then obtain s where s: "s \<in> set (?f c)" "s \<in> set (concat (map ?f cs))" by blast
    from s(1) obtain x where x: "s = c[i := x]" by auto
    from s(2) obtain c' y where c': "c' \<in> set cs" "s = c'[i := y]" by auto
    from x c'(2) have "c[i := x] = c'[i := y]" by simp
    moreover from Cons.prems(2) c'(1) have "length c = length c'" "c ! i = c' ! i" by simp_all
    ultimately have "c = c'" by (rule update_eq_same)
    with c'(1) Cons.prems(1) show False by simp
  qed
  with d1 d2 show ?case by simp
qed

lemma length_star:
  "length (concat (map (\<lambda>c. map (\<lambda>digit. c[i := str_digit digit]) [0..<10]) coll))
     = 10 * length coll"
  by (induction coll) simp_all

lemma expand_loop_inv:
  assumes alphabet: "\<forall>c\<in>set p. isdigit c \<or> c = CHR ''*''"
  shows "i \<le> length p \<Longrightarrow> \<forall>s\<in>set coll. expanded_to i p s \<Longrightarrow> distinct coll \<Longrightarrow>
     \<exists>xs. expand_loop p [i..<length p] coll = Inr xs \<and> distinct xs
        \<and> (\<forall>s\<in>set xs. expanded_to (length p) p s)
        \<and> length xs = length coll * 10 ^ count_list (drop i p) (CHR ''*'')"
proof (induction "length p - i" arbitrary: i coll)
  case 0
  then have "i = length p" by simp
  with 0 show ?case by simp
next
  case (Suc k)
  then have i: "i < length p" by simp
  have upt: "[i..<length p] = i # [Suc i..<length p]"
    using i by (simp add: upt_conv_Cons)
  have dr: "drop i p = p ! i # drop (Suc i) p"
    using i by (simp add: Cons_nth_drop_Suc)
  have k: "k = length p - Suc i" using Suc.hyps(2) by simp
  have le: "Suc i \<le> length p" using i by simp
  note at = expanded_to_nth [OF _ i]
  have lens: "\<forall>c\<in>set coll. length c = length p"
    using Suc.prems(2) by (simp add: expanded_to_def)
  show ?case
  proof (cases "p ! i = CHR ''*''")
    case True
    let ?new = "concat (map (\<lambda>c. map (\<lambda>digit. c[i := str_digit digit]) [0..<10]) coll)"
    have "\<forall>c\<in>set coll. i < length c \<and> c ! i = CHR ''*''"
      using Suc.prems(2) lens i True at by auto
    then have step: "expand_collection p i coll = Inr ?new"
      by (rule expand_collection_star)
    have inv: "\<forall>s\<in>set ?new. expanded_to (Suc i) p s"
      using Suc.prems(2) i True by (auto intro!: expanded_to_Suc_star str_digit_digit)
    have "\<forall>c\<in>set coll. length c = length p \<and> c ! i = p ! i"
      using Suc.prems(2) lens at by auto
    from distinct_star [OF Suc.prems(3) this i] have dist: "distinct ?new" .
    from Suc.hyps(1) [OF k le inv dist] obtain xs where
      xs: "expand_loop p [Suc i..<length p] ?new = Inr xs" "distinct xs"
        "\<forall>s\<in>set xs. expanded_to (length p) p s"
        "length xs = length ?new * 10 ^ count_list (drop (Suc i) p) (CHR ''*'')"
      by blast
    have "expand_loop p [i..<length p] coll = Inr xs"
      by (simp add: upt step xs(1))
    moreover have "length xs = length coll * 10 ^ count_list (drop i p) (CHR ''*'')"
      by (simp add: xs(4) length_star dr True)
    ultimately show ?thesis using xs(2,3) by blast
  next
    case False
    from alphabet i False have digit: "isdigit (p ! i)"
      using nth_mem by blast
    have "\<forall>c\<in>set coll. i < length c \<and> isdigit (c ! i)"
      using Suc.prems(2) lens i digit at by auto
    then have step: "expand_collection p i coll = Inr coll"
      by (rule expand_collection_keep)
    have inv: "\<forall>s\<in>set coll. expanded_to (Suc i) p s"
      using Suc.prems(2) i False by (auto intro: expanded_to_Suc_keep)
    from Suc.hyps(1) [OF k le inv Suc.prems(3)] obtain xs where
      xs: "expand_loop p [Suc i..<length p] coll = Inr xs" "distinct xs"
        "\<forall>s\<in>set xs. expanded_to (length p) p s"
        "length xs = length coll * 10 ^ count_list (drop (Suc i) p) (CHR ''*'')"
      by blast
    have "expand_loop p [i..<length p] coll = Inr xs"
      by (simp add: upt step xs(1))
    moreover have "length xs = length coll * 10 ^ count_list (drop i p) (CHR ''*'')"
      using False by (simp add: xs(4) dr)
    ultimately show ?thesis using xs(2,3) by blast
  qed
qed

lemma expand_asterisk_wildcard_matches:
  assumes "\<forall>c\<in>set p. isdigit c \<or> c = CHR ''*''"
  shows "\<exists>xs. expand_asterisk_wildcard p = Inr xs \<and> distinct xs
        \<and> (\<forall>s\<in>set xs. length s = length p \<and> matches p s)
        \<and> length xs = 10 ^ count_list p (CHR ''*'')"
proof -
  have "\<forall>s\<in>set [p]. expanded_to 0 p s"
    by (simp add: expanded_to_def matches_def)
  from expand_loop_inv [OF assms _ this] obtain xs where
    xs: "expand_loop p [0..<length p] [p] = Inr xs" "distinct xs"
      "\<forall>s\<in>set xs. expanded_to (length p) p s"
      "length xs = length [p] * 10 ^ count_list (drop 0 p) (CHR ''*'')"
    by auto
  from xs(3) have "\<forall>s\<in>set xs. length s = length p \<and> matches p s"
    by (auto simp: expanded_to_def)
  with xs show ?thesis
    by (auto simp: expand_asterisk_wildcard_def)
qed


lemma load_rows_append:
  "load_rows aw (xs @ ys) d
     = (case load_rows aw xs d of Inl e \<Rightarrow> Inl e | Inr d' \<Rightarrow> load_rows aw ys d')"
proof (induction xs arbitrary: d)
  case Nil
  then show ?case by simp
next
  case (Cons row rows)
  show ?case
  proof (cases "\<exists>a b. row = [a, b]")
    case True
    then obtain a b where row: "row = [a, b]" by blast
    have IH: "load_rows flag (rows @ ys) d'
        = (case load_rows flag rows d' of Inl e \<Rightarrow> Inl e | Inr d'' \<Rightarrow> load_rows flag ys d'')"
      if "flag = aw" for flag d'
      unfolding that by (rule Cons.IH)
    show ?thesis
    proof (cases aw)
      case True
      then show ?thesis
        by (cases "expand_asterisk_wildcard a") (simp_all add: row IH [of True] cong: sum.case_cong)
    next
      case False
      then show ?thesis
        by (simp add: row IH [of False] cong: sum.case_cong)
    qed
  next
    case False
    then have "load_rows aw (row # zs) d = Inl ValueError_unpack" for zs
      by (auto split: list.splits)
    from this [of "rows @ ys"] this [of rows] show ?thesis by simp
  qed
qed

lemma load_rows_wildcard:
  assumes "expand_asterisk_wildcard p = Inr xs" and "CHR ''*'' \<in> set p" and "p ! 0 \<noteq> CHR ''#''"
  shows "load_rows True [[p, name]] d = Inr (fold (\<lambda>an d. setitem d an name) xs d)"
proof -
  from assms(2) have "p \<noteq> []" by auto
  with assms show ?thesis by simp
qed

lemma map_of_fold_setitem:
  "map_of (items (fold (\<lambda>an d. setitem d an b) xs d)) k
     = (if k \<in> set xs then Some b else map_of (items d) k)"
  by (induction xs arbitrary: d) (simp_all add: setitem_def update_conv')

lemma getitem_fold_setitem:
  "s \<in> set xs \<Longrightarrow> getitem (fold (\<lambda>an d. setitem d an b) xs d) s = Inr b"
  by (simp add: getitem_def map_of_fold_setitem)

lemma invert_loop_Inr:
  "set ks \<subseteq> set (keys d1) \<Longrightarrow> \<exists>d2'. invert_loop d1 ks d2 = Inr d2'"
proof (induction ks arbitrary: d2)
  case Nil
  then show ?case by simp
next
  case (Cons key ks)
  then obtain v where "getitem d1 key = Inr v"
    using getitem_present [of key d1] by auto
  with Cons show ?case by simp
qed

lemma load_account_dictionary_Inr:
  assumes "load_rows aw rows (case dflt of None \<Rightarrow> dict | Some name \<Rightarrow> defaultdict name) = Inr d1"
  shows "\<exists>d2. load_account_dictionary rows aw dflt = Inr (d1, d2)"
proof -
  from invert_loop_Inr [of "keys d1" d1 dict] obtain d2 where
    "invert_loop d1 (keys d1) dict = Inr d2" by auto
  with assms show ?thesis by (simp add: load_account_dictionary_def)
qed

lemma load_account_dictionary_InrD:
  assumes "load_account_dictionary rows aw dflt = Inr (d1, d2)"
  shows "load_rows aw rows (case dflt of None \<Rightarrow> dict | Some name \<Rightarrow> defaultdict name) = Inr d1"
  using assms by (auto simp: load_account_dictionary_def split: sum.splits)

text \<open>
  Claim C2. For a pattern of digits and \<open>*\<close> with \<open>w\<close> wildcards,
  \<open>expand_asterisk_wildcard\<close> returns \<open>10 ^ w\<close> strings that are distinct, each as
  long as the pattern, equal to the pattern at every position that is no wildcard and
  with one of the ten digits at every wildcard. When the pattern has a wildcard,
  \<open>load_account_dictionary\<close> with wildcards allowed accepts the file of the one row
  with the pattern, and after any file that ends with this row every string of the
  expansion is mapped to the name of the row. For \<open>52*\<close> the strings are \<open>520\<close> to
  \<open>529\<close>.
\<close>

theorem wildcard_expansion:
  assumes "\<forall>c\<in>set p. isdigit c \<or> c = CHR ''*''"
  shows "\<exists>xs. expand_asterisk_wildcard p = Inr xs
     \<and> length xs = 10 ^ count_list p (CHR ''*'') \<and> distinct xs
     \<and> (\<forall>s\<in>set xs. length s = length p
           \<and> (\<forall>i<length p. if p ! i = CHR ''*'' then s ! i \<in> set ''0123456789''
                            else s ! i = p ! i))
     \<and> (CHR ''*'' \<in> set p \<longrightarrow>
          (\<exists>d1 d2. load_account_dictionary [[p, name]] True dflt = Inr (d1, d2))
        \<and> (\<forall>rows d1 d2.
              load_account_dictionary (rows @ [[p, name]]) True dflt = Inr (d1, d2)
              \<longrightarrow> (\<forall>s\<in>set xs. getitem d1 s = Inr name)))"
proof -
  from expand_asterisk_wildcard_matches [OF assms] obtain xs where
    xs: "expand_asterisk_wildcard p = Inr xs" "distinct xs"
      "\<forall>s\<in>set xs. length s = length p \<and> matches p s"
      "length xs = 10 ^ count_list p (CHR ''*'')"
    by blast
  have pos: "\<forall>s\<in>set xs. length s = length p
           \<and> (\<forall>i<length p. if p ! i = CHR ''*'' then s ! i \<in> set ''0123456789''
                            else s ! i = p ! i)"
  proof (intro ballI conjI allI impI)
    fix s assume "s \<in> set xs"
    with xs(3) show "length s = length p" by simp
  next
    fix s i assume s: "s \<in> set xs" and i: "i < length p"
    from xs(3) s have "matches p s" by simp
    then have "list_all2 (\<lambda>c d. if c = CHR ''*'' then d \<in> set ''0123456789'' else d = c) p s"
      by (simp only: matches_def)
    from list_all2_nthD [OF this i]
    show "if p ! i = CHR ''*'' then s ! i \<in> set ''0123456789'' else s ! i = p ! i" .
  qed
  have dict: "CHR ''*'' \<in> set p \<longrightarrow>
          (\<exists>d1 d2. load_account_dictionary [[p, name]] True dflt = Inr (d1, d2))
        \<and> (\<forall>rows d1 d2.
              load_account_dictionary (rows @ [[p, name]]) True dflt = Inr (d1, d2)
              \<longrightarrow> (\<forall>s\<in>set xs. getitem d1 s = Inr name))"
  proof (intro impI conjI allI ballI)
    assume star: "CHR ''*'' \<in> set p"
    then have "p \<noteq> []" by auto
    then have "p ! 0 \<in> set p" by simp
    with assms have "isdigit (p ! 0) \<or> p ! 0 = CHR ''*''" by blast
    then have hash: "p ! 0 \<noteq> CHR ''#''" by (auto simp: isdigit_def)
    note row = load_rows_wildcard [OF xs(1) star hash]
    from load_account_dictionary_Inr [of True "[[p, name]]" dflt, OF row]
    show "\<exists>d1 d2. load_account_dictionary [[p, name]] True dflt = Inr (d1, d2)" by blast
    fix rows d1 d2 s
    assume load: "load_account_dictionary (rows @ [[p, name]]) True dflt = Inr (d1, d2)"
      and s: "s \<in> set xs"
    from load_account_dictionary_InrD [OF load] obtain d where
      "load_rows True [[p, name]] d = Inr d1"
      by (auto simp: load_rows_append split: sum.splits)
    with row have "d1 = fold (\<lambda>an d. setitem d an name) xs d" by simp
    with s show "getitem d1 s = Inr name"
      by (simp add: getitem_fold_setitem)
  qed
  from xs(1,2,4) pos dict show ?thesis by blast
qed

lemma expand_52:
  "expand_asterisk_wildcard ''52*''
     = Inr [''520'', ''521'', ''522'', ''523'', ''524'', ''525'', ''526'', ''527'', ''528'', ''529'']"
  by (simp add: expand_asterisk_wildcard_def expand_position_def isdigit_def str_digit_def
      upt_rec)

theorem wildcard_expansion_witness:
  "expand_asterisk_wildcard ''52*''
     = Inr [''520'', ''521'', ''522'', ''523'', ''524'', ''525'', ''526'', ''527'', ''528'', ''529'']
   \<and> length [''520'', ''521'', ''522'', ''523'', ''524'', ''525'', ''526'', ''527'', ''528'', ''529'']
       = 10 ^ count_list ''52*'' (CHR ''*'')
   \<and> distinct [''520'', ''521'', ''522'', ''523'', ''524'', ''525'', ''526'', ''527'', ''528'', ''529'']
   \<and> (\<exists>d1 d2. load_account_dictionary [[''52*'', ''Assets:Bank'']] True None = Inr (d1, d2)
         \<and> map (getitem d1)
             [''520'', ''521'', ''522'', ''523'', ''524'', ''525'', ''526'', ''527'', ''528'', ''529'']
           = replicate 10 (Inr ''Assets:Bank''))"
proof -
  let ?xs = "[''520'', ''521'', ''522'', ''523'', ''524'', ''525'', ''526'', ''527'', ''528'', ''529'']"
  have a: "\<forall>c\<in>set ''52*''. isdigit c \<or> c = CHR ''*''" by (simp add: isdigit_def)
  have star: "CHR ''*'' \<in> set ''52*''" by simp
  from wildcard_expansion [OF a, of "''Assets:Bank''" None] obtain xs where
    xs: "expand_asterisk_wildcard ''52*'' = Inr xs"
      "length xs = 10 ^ count_list ''52*'' (CHR ''*'')" "distinct xs"
    and dict: "CHR ''*'' \<in> set ''52*'' \<longrightarrow>
          (\<exists>d1 d2. load_account_dictionary [[''52*'', ''Assets:Bank'']] True None = Inr (d1, d2))
        \<and> (\<forall>rows d1 d2.
              load_account_dictionary (rows @ [[''52*'', ''Assets:Bank'']]) True None = Inr (d1, d2)
              \<longrightarrow> (\<forall>s\<in>set xs. getitem d1 s = Inr ''Assets:Bank''))"
    by blast
  from xs(1) have eq: "xs = ?xs" by (simp add: expand_52)
  from dict star obtain d1 d2 where
    load: "load_account_dictionary [[''52*'', ''Assets:Bank'']] True None = Inr (d1, d2)"
    by blast
  from dict star load have "\<forall>s\<in>set xs. getitem d1 s = Inr ''Assets:Bank''"
    by (metis append_Nil)
  then have "map (getitem d1) ?xs = replicate 10 (Inr ''Assets:Bank'')"
    unfolding eq by (simp add: numeral_Bit0 numeral_Bit1)
  with load expand_52 xs(2,3) show ?thesis
    unfolding eq by blast
qed

end
